theory Spec2Isabelle
  imports Complex_Main "HOL-Library.Product_Lexorder"
begin

section \<open>Values of the configuration\<close>

text \<open>
  The extension reads its rules from the editor's settings, which arrive as parsed JSON
  typed \<open>any\<close>.  A value is a JavaScript value: the JSON values, \<open>undefined\<close> for a
  missing entry, and functions (the methods of a configuration object).  A JSON number is
  a rational; an object is the list of its own properties.
\<close>

datatype jsval =
    JUndefined
  | JNull
  | JBool bool
  | JNum rat
  | JStr string
  | JArr "jsval list"
  | JObj "(string \<times> jsval) list"
  | JFunction


text \<open>The truth value of a condition \<open>if (v)\<close>, \<open>!v\<close>, \<open>v || d\<close>.\<close>

fun truthy :: "jsval \<Rightarrow> bool" where
  "truthy JUndefined = False"
| "truthy JNull = False"
| "truthy (JBool b) = b"
| "truthy (JNum n) = (n \<noteq> 0)"
| "truthy (JStr s) = (s \<noteq> [])"
| "truthy (JArr xs) = True"
| "truthy (JObj ps) = True"
| "truthy JFunction = True"

text \<open>\<open>a || b\<close>\<close>

definition js_or :: "jsval \<Rightarrow> jsval \<Rightarrow> jsval" where
  "js_or a b = (if truthy a then a else b)"

text \<open>\<open>Array.isArray(v)\<close>, \<open>v instanceof Array\<close>\<close>

fun isArray :: "jsval \<Rightarrow> bool" where
  "isArray (JArr xs) = True"
| "isArray v = False"

text \<open>
  A property key that is an array index: the canonical decimal numeral of a natural
  number.
\<close>

definition is_digit :: "char \<Rightarrow> bool" where
  "is_digit c = (48 \<le> (of_char c :: nat) \<and> (of_char c :: nat) \<le> 57)"

definition array_index :: "string \<Rightarrow> nat option" where
  "array_index k =
     (if k \<noteq> [] \<and> list_all is_digit k \<and> (k = ''0'' \<or> hd k \<noteq> CHR ''0'')
      then Some (foldl (\<lambda>n c. 10 * n + (of_char c - 48)) 0 k)
      else None)"

text \<open>
  The members that every value other than \<open>null\<close> and \<open>undefined\<close> inherits from
  \<open>Object.prototype\<close>: \<open>v[k]\<close> is one of them when \<open>v\<close> has no property \<open>k\<close> of its
  own.  All are functions but \<open>__proto__\<close>, which is the prototype of the value: an
  object, empty as far as the extension reads it, for an array an empty array, for a
  function a function.
\<close>

definition Object_prototype :: "string list" where
  "Object_prototype =
     [''constructor'', ''__defineGetter__'', ''__defineSetter__'', ''hasOwnProperty'',
      ''__lookupGetter__'', ''__lookupSetter__'', ''isPrototypeOf'', ''propertyIsEnumerable'',
      ''toString'', ''valueOf'', ''__proto__'', ''toLocaleString'']"

fun prototype :: "jsval \<Rightarrow> jsval" where
  "prototype (JArr xs) = JArr []"
| "prototype JFunction = JFunction"
| "prototype v = JObj []"

definition inherited :: "jsval \<Rightarrow> string \<Rightarrow> jsval" where
  "inherited v k =
     (if k = ''__proto__'' then prototype v
      else if k \<in> set Object_prototype then JFunction
      else JUndefined)"


lemma inherited_fields [simp]:
  "inherited v ''descendants'' = JUndefined" "inherited v ''nested'' = JUndefined"
  by (simp_all add: inherited_def Object_prototype_def)


section \<open>The editor's interface\<close>

text \<open>
  A \<open>WorkspaceConfiguration\<close> is the object the editor returns for a section of the
  settings: the four methods \<open>has\<close>, \<open>get\<close>, \<open>update\<close> and \<open>inspect\<close>, with the
  values of the section mixed in as further properties (a value never replaces a
  method).  It is modelled by the list of the section's values.
\<close>

type_synonym WorkspaceConfiguration = "(string \<times> jsval) list"

definition config_methods :: "string list" where
  "config_methods = [''has'', ''get'', ''update'', ''inspect'']"

text \<open>\<open>config.get(key)\<close>\<close>

definition config_get :: "WorkspaceConfiguration \<Rightarrow> string \<Rightarrow> jsval" where
  "config_get config key = (case map_of config key of None \<Rightarrow> JUndefined | Some v \<Rightarrow> v)"

text \<open>\<open>config.has(key)\<close>: the section has a value that is not \<open>undefined\<close> under the key.\<close>

definition config_has :: "WorkspaceConfiguration \<Rightarrow> string \<Rightarrow> bool" where
  "config_has config key = (config_get config key \<noteq> JUndefined)"


text \<open>\<open>Object.keys(config)\<close>, up to the order of the keys.\<close>

definition Object_keys :: "WorkspaceConfiguration \<Rightarrow> string list" where
  "Object_keys config = remdups (config_methods @ map fst config)"

text \<open>
  A document, as far as the extension reads it: its language, and which object it is:
  \<open>$documents.includes(document)\<close> compares the objects, not what they hold, and the
  editor makes a new object when a document is opened again.  \<open>reference\<close> is the
  identity of the object.
\<close>

record TextDocument =
  reference :: nat
  uri :: string
  languageId :: string

text \<open>
  A \<open>Date\<close> is read through \<open>getTime\<close> (which is what \<open>>\<close> compares), \<open>getFullYear\<close>
  and \<open>getMonth\<close>.
\<close>

record Date =
  getTime :: int
  getFullYear :: int
  getMonth :: int

text \<open>
  What a call reads from its surroundings: the sections of the settings, the clock, the
  constructor \<open>new Date(year, month, day)\<close> of the local time zone, the runtime's
  conversions \<open>parseInt\<close> and \<open>ToNumber\<close> (\<open>None\<close> is \<open>NaN\<close>), and the names of the
  members that a value inherits from the prototype of its type (\<open>Array.prototype\<close>,
  \<open>String.prototype\<close>, \<open>Number.prototype\<close>, \<open>Boolean.prototype\<close>,
  \<open>Function.prototype\<close>), which differ between the versions of the runtime.
\<close>

record vscode_env =
  getConfiguration_folding :: WorkspaceConfiguration
  getConfiguration_explicitFolding_rules :: WorkspaceConfiguration
  getConfiguration_explicitFolding :: "TextDocument \<Rightarrow> WorkspaceConfiguration"
  new_Date_now :: Date
  new_Date :: "int \<Rightarrow> int \<Rightarrow> int \<Rightarrow> Date"
  parseInt :: "jsval \<Rightarrow> int option"
  ToNumber :: "jsval \<Rightarrow> rat option"
  prototype_members :: "jsval \<Rightarrow> string list"


text \<open>
  What the extension asks of the editor: \<open>showWarningMessage\<close> and \<open>showErrorMessage\<close>
  with their text, and \<open>executeCommand\<close> with \<open>editor.foldAll\<close>,
  \<open>editor.foldAllBlockComments\<close>, \<open>editor.unfoldAll\<close> or \<open>editor.foldLevel\<close> and a
  level.
\<close>

datatype message = WarningMessage string | ErrorMessage string

datatype command = FoldAll | FoldAllBlockComments | UnfoldAll | FoldLevel int

text \<open>
  \<open>new FoldingProvider(rules, channel, $documents)\<close>: the class is not part of the
  file; an instance is the rule set and the channel it was built with (\<open>$documents\<close>
  is the one shared array of the state).
\<close>

datatype FoldingProvider = FoldingProvider (provider_rules: "jsval list") (provider_channel: "string option")

record registration =
  selector_language :: string
  selector_scheme :: string
  registered :: FoldingProvider

text \<open>
  The state: the field \<open>providers\<close> of the \<open>MainProvider\<close>, the module's variables
  \<open>$channel\<close>, \<open>$disposable\<close> and \<open>$documents\<close>, the entry \<open>explicitFoldingDeprecated\<close>
  of the global state of \<open>$context\<close> (set by \<open>activate\<close> before any provider exists),
  and what the extension has asked of the editor: the messages shown, the commands
  executed, the timers set.  \<open>setups\<close> is a history of the calls of \<open>setup\<close>.
\<close>

record ext_state =
  providers :: "string \<rightharpoonup> bool"
  channel :: "string option"
  disposable :: "registration list"
  documents :: "TextDocument list"
  explicitFoldingDeprecated :: "Date option"
  messages :: "message list"
  commands :: "command list"
  timers :: "(jsval \<times> TextDocument) list"
  setups :: "TextDocument list"


section \<open>The extension\<close>

subsection \<open>applyRules\<close>

fun applyRules :: "jsval \<Rightarrow> jsval list \<Rightarrow> jsval list" where
  "applyRules (JArr data) rules = rules @ data"
| "applyRules data rules = (if truthy data then rules @ [data] else rules)"

subsection \<open>checkDeprecatedRule, checkDeprecatedRules\<close>









definition showWarningMessage :: "string \<Rightarrow> ext_state \<Rightarrow> ext_state" where
  "showWarningMessage m st = st\<lparr>messages := messages st @ [WarningMessage m]\<rparr>"

definition showErrorMessage :: "string \<Rightarrow> ext_state \<Rightarrow> ext_state" where
  "showErrorMessage m st = st\<lparr>messages := messages st @ [ErrorMessage m]\<rparr>"


subsection \<open>foldDocument\<close>





subsection \<open>getDelay\<close>

definition startupDelay_warning :: string where
  "startupDelay_warning = ''Please update your config. The property `startupDelay` has been deprecated and replaced with the property `delay`. It will be removed in the next version.''"

definition getDelay :: "WorkspaceConfiguration \<Rightarrow> ext_state \<Rightarrow> jsval \<times> ext_state" where
  "getDelay config st =
     (if config_has config ''startupDelay'' then
        (js_or (config_get config ''startupDelay'') (JNum 0),
         showWarningMessage startupDelay_warning st)
      else
        (js_or (config_get config ''delay'') (JNum 0), st))"

subsection \<open>getRules\<close>

definition folding_error :: string where
  "folding_error = ''Please update your config. The property `folding` is not supported since July 1, 2022. It has been replaced with the property `explicitFolding.rules`.''"

definition folding_warning :: string where
  "folding_warning = ''Please update your config. The property `folding` has been deprecated and replaced with the property `explicitFolding.rules`. Its support will stop on July 1, 2022.''"

definition getRules :: "vscode_env \<Rightarrow> ext_state \<Rightarrow> WorkspaceConfiguration \<times> ext_state" where
  "getRules env st =
     (let rules = getConfiguration_folding env in
      if length (Object_keys rules) > 4 then
        (let lastWarning = explicitFoldingDeprecated st;
             currentWarning = new_Date_now env
         in if getTime currentWarning > getTime (new_Date env 2022 6 1) then
              (getConfiguration_explicitFolding_rules env, showErrorMessage folding_error st)
            else if (case lastWarning of
                       None \<Rightarrow> True
                     | Some l \<Rightarrow>
                         getFullYear l \<noteq> getFullYear currentWarning
                         \<or> getMonth l \<noteq> getMonth currentWarning
                         \<or> getTime currentWarning > getTime (new_Date env 2022 5 1)) then
              (rules,
               showWarningMessage folding_warning
                 (st\<lparr>explicitFoldingDeprecated := Some currentWarning\<rparr>))
            else (rules, st))
      else (getConfiguration_explicitFolding_rules env, st))"

subsection \<open>getDebugChannel\<close>


subsection \<open>MainProvider\<close>






text \<open>A folding range, as the editor takes it from a provider.\<close>

datatype range_kind = region | comment

record FoldingRange =
  start_line :: int
  end_line :: int
  kind :: range_kind









section \<open>The folding engine\<close>

text \<open>
  The engine is the class \<open>FoldingProvider\<close> of \<open>./foldingProvider\<close>, which is not
  among the source files: every definition of this section is written from the
  specification, whose sections are cited as \<section>n.
\<close>

subsection \<open>Rules\<close>

text \<open>
  Modelled from the spec: the \<open>kind\<close> of a Rule, "one of {begin_end, single_pattern,
  consecutive, indentation}" (\<section>3); \<open>./foldingProvider\<close> is missing.
\<close>

datatype rule_kind = begin_end | single_pattern | consecutive | indentation

text \<open>
  Modelled from the spec: the attributes of a Rule (\<section>3); \<open>./config\<close> and
  \<open>./foldingProvider\<close> are missing.  A pattern is the source text of a regular
  expression.  \<open>comment_rule\<close> is the flag of \<section>4.3 ("rules flagged as comment rules").
\<close>

record rule_attributes =
  rule_id :: nat
  rule_kind :: rule_kind
  begin_pattern :: "string option"
  end_pattern :: "string option"
  single_pattern_source :: "string option"
  strict :: bool
  fold_last_line :: bool
  fold_end_pattern :: bool
  comment_rule :: bool

text \<open>
  Modelled from the spec: a Rule with its \<open>nested_rules\<close>, "ordered sequence of child
  Rules" (\<section>3); \<open>./foldingProvider\<close> is missing.
\<close>

datatype Rule = Rule (attributes: rule_attributes) (nested_rules: "Rule list")

text \<open>
  Modelled from the spec: the "captured groups" of a match, by name (\<section>3);
  \<open>./foldingProvider\<close> is missing.
\<close>

type_synonym capture_groups = "(string \<times> string) list"

text \<open>
  Modelled from the spec: the regular expressions are those of the host; the engine
  reaches them through two operations.  \<open>rx_compiles p\<close>: the pattern \<open>p\<close> compiles
  (a malformed one does not).  \<open>rx_exec p groups text\<close>: the first match of \<open>p\<close> in
  \<open>text\<close>, with the groups of the begin match for a backreference (Glossary), as the
  offset and length of the match and the groups it captured.
\<close>

record rx_match =
  match_index :: nat
  match_length :: nat
  match_groups :: capture_groups

text \<open>
  Modelled from the spec: the two operations on the host's regular expressions that
  \<open>./foldingProvider\<close>, which is missing, uses: compiling a pattern and matching it.
\<close>

record regex_library =
  rx_compiles :: "string \<Rightarrow> bool"
  rx_exec :: "string \<Rightarrow> capture_groups \<Rightarrow> string \<Rightarrow> rx_match option"

text \<open>
  Modelled from the spec: the test of \<open>begin_pattern\<close> and of \<open>end_pattern\<close> of a rule;
  for \<open>single_pattern\<close> the one pattern "with two named capture groups (begin, end)
  stands in for both" (\<section>3).  \<open>./foldingProvider\<close> is missing.
\<close>

definition begin_match :: "regex_library \<Rightarrow> Rule \<Rightarrow> string \<Rightarrow> rx_match option" where
  "begin_match rx r text =
     (if rule_kind (attributes r) = single_pattern then
        (case single_pattern_source (attributes r) of
           None \<Rightarrow> None
         | Some p \<Rightarrow>
            (case rx_exec rx p [] text of
               None \<Rightarrow> None
             | Some m \<Rightarrow> if map_of (match_groups m) ''begin'' \<noteq> None then Some m else None))
      else
        (case begin_pattern (attributes r) of
           None \<Rightarrow> None
         | Some p \<Rightarrow> rx_exec rx p [] text))"

text \<open>
  Modelled from the spec: the test of \<open>end_pattern\<close>, "or backreferenced end" (\<section>4.2),
  with the groups of the begin match; \<open>./foldingProvider\<close> is missing.
\<close>

definition end_match :: "regex_library \<Rightarrow> Rule \<Rightarrow> capture_groups \<Rightarrow> string \<Rightarrow> rx_match option" where
  "end_match rx r groups text =
     (if rule_kind (attributes r) = single_pattern then
        (case single_pattern_source (attributes r) of
           None \<Rightarrow> None
         | Some p \<Rightarrow>
            (case rx_exec rx p groups text of
               None \<Rightarrow> None
             | Some m \<Rightarrow> if map_of (match_groups m) ''end'' \<noteq> None then Some m else None))
      else
        (case end_pattern (attributes r) of
           None \<Rightarrow> None
         | Some p \<Rightarrow> rx_exec rx p groups text))"

subsection \<open>Skipping malformed rules\<close>

text \<open>
  Modelled from the spec: the error of \<section>7 that the matching path meets, "PatternError
  (regex fails to compile)"; \<open>./foldingProvider\<close> is missing.
\<close>

datatype engine_error = PatternError string

text \<open>
  Modelled from the spec: what the engine may report to the diagnostics sink,
  "onDeprecatedField(name), onInvalidRule(rule, reason)" (\<section>6), the rule given by its
  id; \<open>./foldingProvider\<close> is missing.
\<close>

datatype diagnostic = onInvalidRule nat engine_error | onDeprecatedField string

text \<open>
  Modelled from the spec: compiling the patterns a rule declares; "PatternError (regex
  fails to compile)" (\<section>7).  \<open>./foldingProvider\<close> is missing.
\<close>

definition declared_patterns :: "rule_attributes \<Rightarrow> string list" where
  "declared_patterns a =
     (case begin_pattern a of None \<Rightarrow> [] | Some p \<Rightarrow> [p])
     @ (case end_pattern a of None \<Rightarrow> [] | Some p \<Rightarrow> [p])
     @ (case single_pattern_source a of None \<Rightarrow> [] | Some p \<Rightarrow> [p])"

text \<open>
  Modelled from the spec: compiling the patterns of a rule fails with the first that is
  malformed (\<section>7); \<open>./foldingProvider\<close> is missing.
\<close>

definition compile_patterns :: "regex_library \<Rightarrow> rule_attributes \<Rightarrow> engine_error + unit" where
  "compile_patterns rx a =
     (case filter (\<lambda>p. \<not> rx_compiles rx p) (declared_patterns a) of
        [] \<Rightarrow> Inr ()
      | p # _ \<Rightarrow> Inl (PatternError p))"

text \<open>
  Modelled from the spec: "a malformed regex causes that rule to be skipped (logged,
  not fatal)" (\<section>4.2), at every level of the rule tree; the log is what is reported to
  the diagnostics sink by \<open>onInvalidRule\<close> (\<section>6).  \<open>./foldingProvider\<close> is missing.
\<close>

fun usable_rule :: "regex_library \<Rightarrow> Rule \<Rightarrow> Rule option \<times> diagnostic list"
  and usable_rules :: "regex_library \<Rightarrow> Rule list \<Rightarrow> Rule list \<times> diagnostic list"
where
  "usable_rule rx (Rule a ns) =
     (case compile_patterns rx a of
        Inl e \<Rightarrow> (None, [onInvalidRule (rule_id a) e])
      | Inr _ \<Rightarrow>
         (case usable_rules rx ns of (ns', reports) \<Rightarrow> (Some (Rule a ns'), reports)))"
| "usable_rules rx [] = ([], [])"
| "usable_rules rx (r # rs) =
     (case usable_rule rx r of (r', reports1) \<Rightarrow>
        (case usable_rules rx rs of (rs', reports2) \<Rightarrow>
           ((case r' of None \<Rightarrow> rs' | Some u \<Rightarrow> u # rs'), reports1 @ reports2)))"

subsection \<open>The matching engine\<close>

text \<open>
  Modelled from the spec: the Open Entry, "rule id, start line, start column, captured
  groups ..., and the originating parent entry (to know which nested rule set is
  active)" (\<section>3); the entry holds its rule, which holds the id.
  \<open>./foldingProvider\<close> is missing.
\<close>

datatype Open_Entry =
  Open_Entry (entry_rule: Rule) (entry_line: nat) (entry_column: nat)
    (entry_groups: capture_groups) (entry_parent: "Open_Entry option")

text \<open>
  Modelled from the spec: a close event pairs what was opened at a line with the line
  that closes it (\<section>4.2); \<open>./foldingProvider\<close> is missing.
\<close>

record close_event =
  event_rule :: Rule
  open_line :: nat
  close_line :: nat

text \<open>
  Modelled from the spec: the state of a scan: the "one stack of Open Entries"
  (innermost first), the "run counter per rule id" of the consecutive rules (the rule
  with the first line, the last line and the count of its run), and the events emitted
  so far (\<section>4.2).  \<open>./foldingProvider\<close> is missing.
\<close>

record scan_state =
  stack :: "Open_Entry list"
  runs :: "(Rule \<times> nat \<times> nat \<times> nat) list"
  events :: "close_event list"

text \<open>
  Modelled from the spec: "emit a close event" (\<section>4.2), after those emitted so far;
  \<open>./foldingProvider\<close> is missing.
\<close>

definition emit :: "Rule \<Rightarrow> nat \<Rightarrow> nat \<Rightarrow> scan_state \<Rightarrow> scan_state" where
  "emit r a b st = st\<lparr>events := events st @ [\<lparr>event_rule = r, open_line = a, close_line = b\<rparr>]\<rparr>"

text \<open>
  Modelled from the spec: "push an Open Entry" (\<section>4.2) on the top of the stack;
  \<open>./foldingProvider\<close> is missing.
\<close>

definition push :: "Open_Entry \<Rightarrow> scan_state \<Rightarrow> scan_state" where
  "push e st = st\<lparr>stack := e # stack st\<rparr>"

text \<open>
  Modelled from the spec: step 1 of \<section>4.2, "If the stack's top entry has an active
  nested Rule Set, first attempt all of that nested set's rules ... before falling back
  to rules at the current scope": the nested set of an entry, then the rules of the
  scopes around it: the nested set of its parent, then of the parent of that, out to
  the top-level rules.  A top-level rule is so tried on every line, as in step 5, where
  every line extends or closes the run of a consecutive rule.  Each rule goes with the
  entry that becomes the parent of what it opens.  \<open>./foldingProvider\<close> is missing.
\<close>

fun enclosing_rules :: "Rule list \<Rightarrow> Open_Entry \<Rightarrow> (Rule \<times> Open_Entry option) list" where
  "enclosing_rules toplevel (Open_Entry r l c g parent) =
     map (\<lambda>q. (q, Some (Open_Entry r l c g parent))) (nested_rules r)
     @ (case parent of
          None \<Rightarrow> map (\<lambda>q. (q, None)) toplevel
        | Some e \<Rightarrow> enclosing_rules toplevel e)"

text \<open>
  Modelled from the spec: step 1 of \<section>4.2, the rules tried on a line: those around the
  top entry of the stack, innermost first; the top-level rules when nothing is open.
  \<open>./foldingProvider\<close> is missing.
\<close>

definition active_rules :: "Rule list \<Rightarrow> Open_Entry list \<Rightarrow> (Rule \<times> Open_Entry option) list" where
  "active_rules toplevel stk =
     (case stk of
        [] \<Rightarrow> map (\<lambda>r. (r, None)) toplevel
      | e # _ \<Rightarrow> enclosing_rules toplevel e)"

text \<open>
  Modelled from the spec: the characters of "leading-whitespace" (\<section>4.2) and of "only
  whitespace separates them" (\<section>3), the space and the tab; \<open>./foldingProvider\<close> is
  missing.
\<close>

definition is_whitespace :: "char \<Rightarrow> bool" where
  "is_whitespace c = (c = CHR '' '' \<or> c = CHR 0x09)"

text \<open>
  Modelled from the spec: step 2 of \<section>4.2 for a rule with delimiters, on the part of
  the line that earlier rules have not consumed (from column \<open>c\<close>): "test begin_pattern;
  on match, push an Open Entry capturing start line/column and any backreference
  groups, then continue scanning the remainder of the line for an immediate
  end_pattern match (supports same-line open+close, subject to strict)".  A begin and
  an end on the same line "collapse to zero-height": the entry is closed at its own
  line; under \<open>strict\<close> not so when "only whitespace separates them" (\<section>3).
  \<open>./foldingProvider\<close> is missing.
\<close>

definition begin_step ::
  "regex_library \<Rightarrow> nat \<Rightarrow> string \<Rightarrow> Rule \<Rightarrow> Open_Entry option \<Rightarrow> nat \<times> scan_state
     \<Rightarrow> nat \<times> scan_state" where
  "begin_step rx i line r parent cst =
     (case cst of (c, st) \<Rightarrow>
        (case begin_match rx r (drop c line) of
           None \<Rightarrow> (c, st)
         | Some m \<Rightarrow>
            (let column = c + match_index m;
                 c' = column + match_length m;
                 e = Open_Entry r i column (match_groups m) parent
             in case end_match rx r (match_groups m) (drop c' line) of
                  None \<Rightarrow> (c', push e st)
                | Some m' \<Rightarrow>
                   if strict (attributes r)
                      \<and> list_all is_whitespace (take (match_index m') (drop c' line))
                   then (c', push e st)
                   else (c' + match_index m' + match_length m', emit r i i st))))"

text \<open>
  Modelled from the spec: step 3 of \<section>4.2: "Test end_pattern (or backreferenced end)
  against the line for every currently open entry whose rule id matches, innermost
  (top-of-stack) first; on match, pop that entry and emit a close event pairing it with
  the current line.  Rules using fold_end_pattern instead pair with the nearest open
  entry of the same rule id regardless of intervening unrelated opens."  The function
  returns the entry to close and the stack without it.  \<open>./foldingProvider\<close> is missing.
\<close>

fun find_closed ::
  "regex_library \<Rightarrow> Rule \<Rightarrow> string \<Rightarrow> Open_Entry list \<Rightarrow> (Open_Entry \<times> Open_Entry list) option" where
  "find_closed rx r line [] = None"
| "find_closed rx r line (e # es) =
     (if rule_id (attributes (entry_rule e)) = rule_id (attributes r)
         \<and> end_match rx r (if fold_end_pattern (attributes r) then [] else entry_groups e) line
             \<noteq> None
      then Some (e, es)
      else (case find_closed rx r line es of
              None \<Rightarrow> None
            | Some (e', es') \<Rightarrow> Some (e', e # es')))"

text \<open>
  Modelled from the spec: step 3 of \<section>4.2, "on match, pop that entry and emit a close
  event pairing it with the current line"; \<open>./foldingProvider\<close> is missing.
\<close>

definition end_step :: "regex_library \<Rightarrow> nat \<Rightarrow> string \<Rightarrow> Rule \<Rightarrow> scan_state \<Rightarrow> scan_state" where
  "end_step rx i line r st =
     (case find_closed rx r line (stack st) of
        None \<Rightarrow> st
      | Some (e, es) \<Rightarrow> emit (entry_rule e) (entry_line e) i (st\<lparr>stack := es\<rparr>))"

text \<open>
  Modelled from the spec: step 4 of \<section>4.2 for an \<open>off_side\<close> rule: "compute the line's
  leading-whitespace width; if greater than the width recorded for an implicit open at
  a shallower level, push an implicit open; if less than or equal, close all implicit
  opens at \<ge> that width, emitting one close event per closed level at the line
  immediately above the current line".  The width of an implicit open is its start
  column.  An open of the current line has no line above it to be closed at and stays;
  the line is pushed in both cases, each line being where a block can start: "blocks
  are spans between a line and the next line whose indentation is \<le> its own" (\<section>3).
  \<open>./foldingProvider\<close> is missing.
\<close>

definition leading_width :: "string \<Rightarrow> nat" where
  "leading_width line = length (takeWhile is_whitespace line)"

text \<open>
  Modelled from the spec: step 4 of \<section>4.2, the implicit opens of the rule that a line of
  width \<open>w\<close> closes, those "at \<ge> that width" opened on a line above;
  \<open>./foldingProvider\<close> is missing.
\<close>

definition implicit_closed :: "nat \<Rightarrow> nat \<Rightarrow> Rule \<Rightarrow> Open_Entry \<Rightarrow> bool" where
  "implicit_closed i w r e =
     (rule_id (attributes (entry_rule e)) = rule_id (attributes r)
      \<and> entry_column e \<ge> w \<and> entry_line e < i)"

text \<open>
  Modelled from the spec: step 4 of \<section>4.2: the implicit opens the line closes are taken
  off the stack, "one close event per closed level at the line immediately above the
  current line", and the line is pushed as an implicit open.  \<open>./foldingProvider\<close> is
  missing.
\<close>

definition off_side_step :: "nat \<Rightarrow> string \<Rightarrow> Rule \<Rightarrow> Open_Entry option \<Rightarrow> scan_state \<Rightarrow> scan_state" where
  "off_side_step i line r parent st =
     (let w = leading_width line;
          closed = filter (implicit_closed i w r) (stack st);
          st1 = foldl (\<lambda>s e. emit (entry_rule e) (entry_line e) (i - 1) s)
                  (st\<lparr>stack := filter (\<lambda>e. \<not> implicit_closed i w r e) (stack st)\<rparr>) closed
      in push (Open_Entry r i w [] parent) st1)"

text \<open>
  Modelled from the spec: step 5 of \<section>4.2 for a \<open>consecutive\<close> rule: "track a run
  counter per rule id"; the run of a rule, if it has one.  \<open>./foldingProvider\<close> is
  missing.
\<close>

definition run_of :: "Rule \<Rightarrow> (Rule \<times> nat \<times> nat \<times> nat) list \<Rightarrow> (nat \<times> nat \<times> nat) option" where
  "run_of r rs =
     map_of (map (\<lambda>(q, run). (rule_id (attributes q), run)) rs) (rule_id (attributes r))"

text \<open>
  Modelled from the spec: the runs "per rule id" (\<section>4.2) without the run of a rule;
  \<open>./foldingProvider\<close> is missing.
\<close>

definition without_run :: "Rule \<Rightarrow> (Rule \<times> nat \<times> nat \<times> nat) list \<Rightarrow> (Rule \<times> nat \<times> nat \<times> nat) list" where
  "without_run r rs =
     filter (\<lambda>(q, run). rule_id (attributes q) \<noteq> rule_id (attributes r)) rs"

text \<open>
  Modelled from the spec: step 5 of \<section>4.2, "a close event is emitted only if the run
  length is \<ge> 2, spanning the first to last matched line"; \<open>./foldingProvider\<close> is
  missing.
\<close>

definition close_run :: "Rule \<times> nat \<times> nat \<times> nat \<Rightarrow> scan_state \<Rightarrow> scan_state" where
  "close_run rr st =
     (case rr of (r, a, b, n) \<Rightarrow> if n \<ge> 2 then emit r a b st else st)"

text \<open>
  Modelled from the spec: step 5 of \<section>4.2, "a line matching begin_pattern extends the
  run, a non-matching line ... closes it"; \<open>./foldingProvider\<close> is missing.
\<close>

definition consecutive_step :: "regex_library \<Rightarrow> nat \<Rightarrow> string \<Rightarrow> Rule \<Rightarrow> scan_state \<Rightarrow> scan_state" where
  "consecutive_step rx i line r st =
     (case begin_match rx r line of
        Some m \<Rightarrow>
         (case run_of r (runs st) of
            None \<Rightarrow> st\<lparr>runs := (r, i, i, 1) # runs st\<rparr>
          | Some (a, b, n) \<Rightarrow>
             st\<lparr>runs := (r, a, i, n + 1) # without_run r (runs st)\<rparr>)
      | None \<Rightarrow>
         (case run_of r (runs st) of
            None \<Rightarrow> st
          | Some run \<Rightarrow> close_run (r, run) (st\<lparr>runs := without_run r (runs st)\<rparr>)))"

text \<open>
  Modelled from the spec: one line of the scan (\<section>4.2, "For each line, in order"): the
  rules of step 1 in their order, each by its kind; the column is what the begin
  matches of earlier rules have consumed of the line.  \<open>./foldingProvider\<close> is missing.
\<close>

definition rule_step ::
  "regex_library \<Rightarrow> nat \<Rightarrow> string \<Rightarrow> nat \<times> scan_state \<Rightarrow> Rule \<times> Open_Entry option
     \<Rightarrow> nat \<times> scan_state" where
  "rule_step rx i line cst rp =
     (case rp of (r, parent) \<Rightarrow>
        (case rule_kind (attributes r) of
           indentation \<Rightarrow> (fst cst, off_side_step i line r parent (snd cst))
         | consecutive \<Rightarrow> (fst cst, consecutive_step rx i line r (snd cst))
         | _ \<Rightarrow>
            (case begin_step rx i line r parent cst of
               (c, st) \<Rightarrow> (c, end_step rx i line r st))))"

text \<open>
  Modelled from the spec: a rule is tried with its patterns compiled, and compiling a
  malformed pattern fails: "PatternError (regex fails to compile)" (\<section>7).  The scan has
  no handler for it: the error ends the scan.  \<open>./foldingProvider\<close> is missing.
\<close>

definition try_rule ::
  "regex_library \<Rightarrow> nat \<Rightarrow> string \<Rightarrow> nat \<times> scan_state \<Rightarrow> Rule \<times> Open_Entry option
     \<Rightarrow> engine_error + nat \<times> scan_state" where
  "try_rule rx i line cst rp =
     (case compile_patterns rx (attributes (fst rp)) of
        Inl e \<Rightarrow> Inl e
      | Inr _ \<Rightarrow> Inr (rule_step rx i line cst rp))"

text \<open>
  Modelled from the spec: \<section>4.2, the rules of step 1 tried in their order, up to the
  first error; \<open>./foldingProvider\<close> is missing.
\<close>

fun try_rules ::
  "regex_library \<Rightarrow> nat \<Rightarrow> string \<Rightarrow> (Rule \<times> Open_Entry option) list \<Rightarrow> nat \<times> scan_state
     \<Rightarrow> engine_error + nat \<times> scan_state" where
  "try_rules rx i line [] cst = Inr cst"
| "try_rules rx i line (rp # rps) cst =
     (case try_rule rx i line cst rp of
        Inl e \<Rightarrow> Inl e
      | Inr cst' \<Rightarrow> try_rules rx i line rps cst')"

text \<open>
  Modelled from the spec: step 5 of \<section>4.2, "a line matching begin_pattern extends the
  run": a run that line \<open>i\<close> has not extended is one whose last line is not \<open>i\<close>.
  \<open>./foldingProvider\<close> is missing.
\<close>

definition stale :: "nat \<Rightarrow> Rule \<times> nat \<times> nat \<times> nat \<Rightarrow> bool" where
  "stale i rr = (case rr of (r, a, b, n) \<Rightarrow> b \<noteq> i)"

text \<open>
  Modelled from the spec: step 5 of \<section>4.2, "a non-matching line ... closes it": a run
  that the line has not extended is closed by the line, also when its rule, a nested
  one, is not among the rules tried on the line.  The oldest run is closed first.
  \<open>./foldingProvider\<close> is missing.
\<close>

definition close_stale_runs :: "nat \<Rightarrow> scan_state \<Rightarrow> scan_state" where
  "close_stale_runs i st =
     foldl (\<lambda>s rr. close_run rr s) (st\<lparr>runs := filter (\<lambda>rr. \<not> stale i rr) (runs st)\<rparr>)
       (rev (filter (stale i) (runs st)))"

text \<open>
  Modelled from the spec: \<section>4.2, "For each line": the rules of step 1, in their order,
  from column 0, then the runs that the line closes; \<open>./foldingProvider\<close> is missing.
\<close>

definition process_line ::
  "regex_library \<Rightarrow> Rule list \<Rightarrow> nat \<Rightarrow> string \<Rightarrow> scan_state \<Rightarrow> engine_error + scan_state" where
  "process_line rx toplevel i line st =
     (case try_rules rx i line (active_rules toplevel (stack st)) (0, st) of
        Inl e \<Rightarrow> Inl e
      | Inr cst \<Rightarrow> Inr (close_stale_runs i (snd cst)))"

text \<open>
  Modelled from the spec: \<section>4.2, "line-oriented, single pass": the lines in order, each
  with its index, up to the first error; \<open>./foldingProvider\<close> is missing.
\<close>

fun scan_lines ::
  "regex_library \<Rightarrow> Rule list \<Rightarrow> nat \<Rightarrow> string list \<Rightarrow> scan_state \<Rightarrow> engine_error + scan_state" where
  "scan_lines rx toplevel i [] st = Inr st"
| "scan_lines rx toplevel i (line # lines) st =
     (case process_line rx toplevel i line st of
        Inl e \<Rightarrow> Inl e
      | Inr st' \<Rightarrow> scan_lines rx toplevel (Suc i) lines st')"

text \<open>
  Modelled from the spec: the end of the document: the runs are closed ("or EOF"), and
  "all remaining Open Entries are discarded without emitting a close event" (\<section>4.2).
  \<open>./foldingProvider\<close> is missing.
\<close>

definition end_of_document :: "scan_state \<Rightarrow> scan_state" where
  "end_of_document st =
     (foldl (\<lambda>s rr. close_run rr s) (st\<lparr>runs := []\<rparr>) (rev (runs st)))\<lparr>stack := []\<rparr>"

text \<open>
  Modelled from the spec: the Matching Engine, which is to "transform (RuleSet, sequence
  of lines) into an ordered stream of open/close events" (\<section>4.2), from an empty stack;
  it fails with the error of the scan.  \<open>./foldingProvider\<close> is missing.
\<close>

definition matching_engine ::
  "regex_library \<Rightarrow> Rule list \<Rightarrow> string list \<Rightarrow> engine_error + close_event list" where
  "matching_engine rx rules lines =
     (case scan_lines rx rules 0 lines \<lparr>stack = [], runs = [], events = []\<rparr> of
        Inl e \<Rightarrow> Inl e
      | Inr st \<Rightarrow> Inr (events (end_of_document st)))"

subsection \<open>The range assembler\<close>

text \<open>
  Modelled from the spec: \<section>4.3: "start_line = the open entry's line; end_line = the
  close event's line, minus one if fold_last_line is false for that rule (so the
  delimiter line itself remains visible)", \<open>fold_last_line\<close> being about "the line
  containing the end pattern" (\<section>3), which only a rule with delimiters has;
  "Discards zero-height results", an open and a close on one line first
  ("zero-height suppression as always taking priority", \<section>9); "Clips any end_line
  beyond the document's last line to the last line"; "Assigns kind = comment for rules
  flagged as comment rules ..., else region".  \<open>./foldingProvider\<close> is missing.
\<close>

definition has_delimiters :: "Rule \<Rightarrow> bool" where
  "has_delimiters r =
     (rule_kind (attributes r) = begin_end \<or> rule_kind (attributes r) = single_pattern)"

text \<open>
  Modelled from the spec: \<section>4.3, one event made a Folding Range, or discarded;
  \<open>./foldingProvider\<close> is missing.
\<close>

definition assemble_range :: "int \<Rightarrow> close_event \<Rightarrow> FoldingRange option" where
  "assemble_range last_line ev =
     (let r = event_rule ev;
          start = int (open_line ev);
          finish = int (close_line ev)
                  - (if has_delimiters r \<and> \<not> fold_last_line (attributes r) then 1 else 0)
      in if open_line ev = close_line ev \<or> start = finish then None
         else Some \<lparr>start_line = start,
                    end_line = (if finish > last_line then last_line else finish),
                    kind = (if comment_rule (attributes r) then comment else region)\<rparr>)"

text \<open>
  Modelled from the spec: \<section>4.3: "De-duplicates identical (start_line, end_line) pairs
  ... (keeps the first-seen ...)".  \<open>./foldingProvider\<close> is missing.
\<close>

fun deduplicate :: "FoldingRange list \<Rightarrow> FoldingRange list" where
  "deduplicate [] = []"
| "deduplicate (r # rs) =
     r # deduplicate
           (filter (\<lambda>q. (start_line q, end_line q) \<noteq> (start_line r, end_line r)) rs)"

text \<open>
  Modelled from the spec: \<section>4.3: "Returns the resulting set sorted by start_line
  ascending, end_line descending".  \<open>./foldingProvider\<close> is missing.
\<close>

definition range_assembler :: "int \<Rightarrow> close_event list \<Rightarrow> FoldingRange list" where
  "range_assembler last_line evs =
     sort_key (\<lambda>r. (start_line r, - end_line r))
       (deduplicate (List.map_filter (assemble_range last_line) evs))"

subsection \<open>The engine\<close>

text \<open>
  Modelled from the spec: the events of a run of the engine: "a malformed regex causes
  that rule to be skipped" (\<section>4.2), so the matching engine is given the rules that are
  usable.  \<open>./foldingProvider\<close> is missing.
\<close>

definition engine_events ::
  "regex_library \<Rightarrow> Rule list \<Rightarrow> string list \<Rightarrow> engine_error + close_event list" where
  "engine_events rx rules lines = matching_engine rx (fst (usable_rules rx rules)) lines"

text \<open>
  Modelled from the spec: the engine as "a pure, synchronous, single-threaded function
  of (RuleSet, document text)" (\<section>5), from a rule set and "the document content split
  on line boundaries, 0-indexed" to "an ordered sequence of Folding Range", reporting to
  the diagnostics sink (\<section>6), which it is handed and hands back.  An error of the
  matching engine would be the result of the engine.  \<open>./foldingProvider\<close> is missing.
\<close>

definition engine ::
  "regex_library \<Rightarrow> Rule list \<Rightarrow> string list \<Rightarrow> diagnostic list
     \<Rightarrow> (engine_error + FoldingRange list) \<times> diagnostic list" where
  "engine rx rules lines sink =
     ((case engine_events rx rules lines of
         Inl e \<Rightarrow> Inl e
       | Inr evs \<Rightarrow> Inr (range_assembler (int (length lines) - 1) evs)),
      sink @ snd (usable_rules rx rules))"

subsection \<open>Runs of matching lines\<close>




text \<open>
  The events of the rule with a given id among the events of a scan, and the lines an
  event spans.
\<close>

definition rule_events :: "nat \<Rightarrow> close_event list \<Rightarrow> close_event list" where
  "rule_events k evs = filter (\<lambda>ev. rule_id (attributes (event_rule ev)) = k) evs"


text \<open>
  A property of the attributes that holds of a rule and of every rule nested in it, at
  any depth.
\<close>

fun every_rule :: "(rule_attributes \<Rightarrow> bool) \<Rightarrow> Rule \<Rightarrow> bool" where
  "every_rule P (Rule a ns) = (P a \<and> (\<forall>n \<in> set ns. every_rule P n))"

subsection \<open>Invariants of the scan\<close>

text \<open>
  Before line \<open>n\<close> is read, every open entry, run and event lies in the lines before
  \<open>n\<close>, and nothing closes before it opens.
\<close>

definition bounded :: "nat \<Rightarrow> scan_state \<Rightarrow> bool" where
  "bounded n st =
     ((\<forall>e \<in> set (stack st). entry_line e < n)
      \<and> (\<forall>(r, a, b, k) \<in> set (runs st). a \<le> b \<and> b < n)
      \<and> (\<forall>ev \<in> set (events st). open_line ev \<le> close_line ev \<and> close_line ev < n))"

text \<open>
  A property of rules that holds of the rule of an entry and of the rules of the
  entries around it.
\<close>

fun every_entry :: "(Rule \<Rightarrow> bool) \<Rightarrow> Open_Entry \<Rightarrow> bool" where
  "every_entry G (Open_Entry r l c g parent) =
     (G r \<and> (case parent of None \<Rightarrow> True | Some e \<Rightarrow> every_entry G e))"

text \<open>
  What a scan holds of the rule with a given id: its run and its events.
\<close>

definition rule_view :: "nat \<Rightarrow> scan_state \<Rightarrow> scan_state" where
  "rule_view k st =
     \<lparr>stack = [],
      runs = filter (\<lambda>rr. rule_id (attributes (fst rr)) = k) (runs st),
      events = rule_events k (events st)\<rparr>"

text \<open>The events that closing a list of runs emits.\<close>

definition run_events :: "(Rule \<times> nat \<times> nat \<times> nat) list \<Rightarrow> close_event list" where
  "run_events rs =
     concat (map (\<lambda>(r, a, b, n).
        if n \<ge> 2 then [\<lparr>event_rule = r, open_line = a, close_line = b\<rparr>] else []) rs)"




section \<open>Example settings, documents and states\<close>

definition example_state :: ext_state where
  "example_state =
     \<lparr>providers = Map.empty, channel = None, disposable = [], documents = [],
      explicitFoldingDeprecated = None, messages = [], commands = [], timers = [],
      setups = []\<rparr>"

definition example_rules :: "jsval list" where
  "example_rules =
     [JObj [(''begin'', JStr ''{''), (''end'', JStr ''}''), (''descendants'', JBool True)],
      JObj [(''begin'', JStr ''/*''), (''end'', JStr ''*/''),
            (''nested'', JArr [JObj [(''begin'', JStr ''#if''), (''descendants'', JNum 1)]])]]"

text \<open>
  \<open>new Date(year, month, day)\<close> on a machine whose time zone is UTC, for the two dates
  the extension builds: the first of July 2022 and the first of June 2022.
\<close>

definition example_new_Date :: "int \<Rightarrow> int \<Rightarrow> int \<Rightarrow> Date" where
  "example_new_Date y m d =
     \<lparr>getTime = (if m = 6 then 1656633600000 else 1654041600000),
      getFullYear = y, getMonth = m\<rparr>"

text \<open>
  The members of the prototypes of the types in ECMAScript 5, which every later version
  of the runtime has.
\<close>

definition example_prototype_members :: "jsval \<Rightarrow> string list" where
  "example_prototype_members v =
     (case v of
        JArr xs \<Rightarrow> [''concat'', ''every'', ''filter'', ''forEach'', ''indexOf'', ''join'',
                    ''lastIndexOf'', ''map'', ''pop'', ''push'', ''reduce'', ''reduceRight'',
                    ''reverse'', ''shift'', ''slice'', ''some'', ''sort'', ''splice'', ''unshift'']
      | JStr s \<Rightarrow> [''charAt'', ''charCodeAt'', ''concat'', ''indexOf'', ''lastIndexOf'',
                   ''localeCompare'', ''match'', ''replace'', ''search'', ''slice'', ''split'',
                   ''substring'', ''toLowerCase'', ''toUpperCase'', ''trim'']
      | JNum n \<Rightarrow> [''toExponential'', ''toFixed'', ''toPrecision'']
      | JFunction \<Rightarrow> [''apply'', ''bind'', ''call'']
      | _ \<Rightarrow> [])"

text \<open>
  The setting \<open>explicitFolding.rules\<close> of the examples, by language, and the
  environment that reads it: as the section \<open>explicitFolding.rules\<close>, and as the key
  \<open>rules\<close> of the section \<open>explicitFolding\<close>.
\<close>

definition example_rules_setting :: "(string \<times> jsval) list" where
  "example_rules_setting =
     [(''javascript'', JArr [JObj [(''begin'', JStr ''{''), (''end'', JStr ''}'')],
                            JObj [(''begin'', JStr ''['')]]),
      (''*'', JObj [(''begin'', JStr ''#region''), (''end'', JStr ''#endregion'')])]"

definition settings_env :: "(string \<times> jsval) list \<Rightarrow> vscode_env" where
  "settings_env rules_setting =
     \<lparr>getConfiguration_folding = [],
      getConfiguration_explicitFolding_rules = rules_setting,
      getConfiguration_explicitFolding = (\<lambda>document. [(''rules'', JObj rules_setting)]),
      new_Date_now = \<lparr>getTime = 1667347200000, getFullYear = 2022, getMonth = 10\<rparr>,
      new_Date = example_new_Date,
      parseInt = (\<lambda>v. None),
      ToNumber = (\<lambda>v. None),
      prototype_members = example_prototype_members\<rparr>"

definition example_env :: vscode_env where
  "example_env = settings_env example_rules_setting"

definition example_document :: TextDocument where
  "example_document = \<lparr>reference = 1, uri = ''file:///a.js'', languageId = ''javascript''\<rparr>"

text \<open>
  A document of a language that the setting has no entry for, and a document of a
  language named as a member of \<open>Object.prototype\<close>.
\<close>

definition python_document :: TextDocument where
  "python_document = \<lparr>reference = 2, uri = ''file:///b.py'', languageId = ''python''\<rparr>"

definition constructor_document :: TextDocument where
  "constructor_document = \<lparr>reference = 3, uri = ''file:///c'', languageId = ''constructor''\<rparr>"

text \<open>
  Settings in which the key \<open>rules\<close> of the section \<open>explicitFolding\<close>, read for a
  document, is a list of rules (a value set for the language of the document), and
  settings in which it is not set.
\<close>

definition override_env :: vscode_env where
  "override_env =
     (settings_env example_rules_setting)\<lparr>getConfiguration_explicitFolding :=
       (\<lambda>document. [(''rules'', JArr [JObj [(''begin'', JStr ''#'')]])])\<rparr>"

definition unset_env :: vscode_env where
  "unset_env =
     (settings_env example_rules_setting)\<lparr>getConfiguration_explicitFolding :=
       (\<lambda>document. [])\<rparr>"

text \<open>
  A list of rules of which the first declares \<open>descendants\<close> and the second has a
  \<open>null\<close> in its nested list.
\<close>

definition null_entry_rules :: "jsval list" where
  "null_entry_rules =
     [JObj [(''descendants'', JBool True)], JObj [(''nested'', JArr [JNull])]]"

definition null_rule_env :: vscode_env where
  "null_rule_env = settings_env [(''javascript'', JArr [JNull])]"

definition delayed_env :: vscode_env where
  "delayed_env =
     example_env\<lparr>getConfiguration_explicitFolding :=
       (\<lambda>document. [(''rules'', JObj example_rules_setting), (''delay'', JNum 500)])\<rparr>"

definition legacy_env :: vscode_env where
  "legacy_env =
     example_env\<lparr>getConfiguration_folding :=
       [(''javascript'', JObj [(''begin'', JStr ''/*''), (''end'', JStr ''*/'')])]\<rparr>"

definition legacy_env_before :: vscode_env where
  "legacy_env_before =
     legacy_env\<lparr>new_Date_now := \<lparr>getTime = 1646092800000, getFullYear = 2022, getMonth = 2\<rparr>\<rparr>"

lemmas example_defs =
  example_env_def settings_env_def example_rules_setting_def example_document_def
  example_state_def example_new_Date_def null_rule_env_def
  legacy_env_def legacy_env_before_def example_rules_def delayed_env_def
  example_prototype_members_def python_document_def constructor_document_def
  override_env_def unset_env_def null_entry_rules_def



section \<open>An example library of patterns, rules and documents\<close>

text \<open>
  A small library for the examples: a pattern is a literal text, matched at its first
  occurrence, or at the start of the line when it begins with \<open>^\<close>; a pattern
  compiles when its parentheses are as many opening as closing.
\<close>

fun find_substring :: "string \<Rightarrow> string \<Rightarrow> nat option" where
  "find_substring p [] = (if p = [] then Some 0 else None)"
| "find_substring p (c # cs) =
     (if take (length p) (c # cs) = p then Some 0
      else map_option Suc (find_substring p cs))"

definition literal_library :: regex_library where
  "literal_library =
     \<lparr>rx_compiles = (\<lambda>p. length (filter (\<lambda>c. c = CHR ''('') p)
                           = length (filter (\<lambda>c. c = CHR '')'') p)),
      rx_exec = (\<lambda>p groups text.
         case p of
           CHR ''^'' # q \<Rightarrow>
             (if take (length q) text = q
              then Some \<lparr>match_index = 0, match_length = length q, match_groups = []\<rparr>
              else None)
         | _ \<Rightarrow>
             (case find_substring p text of
                None \<Rightarrow> None
              | Some k \<Rightarrow> Some \<lparr>match_index = k, match_length = length p, match_groups = []\<rparr>))\<rparr>"

definition braces_rule :: Rule where
  "braces_rule =
     Rule \<lparr>rule_id = 1, rule_kind = begin_end, begin_pattern = Some ''{'',
           end_pattern = Some ''}'', single_pattern_source = None, strict = True,
           fold_last_line = True, fold_end_pattern = False, comment_rule = False\<rparr> []"

definition line_comment_rule :: Rule where
  "line_comment_rule =
     Rule \<lparr>rule_id = 2, rule_kind = consecutive, begin_pattern = Some ''^//'',
           end_pattern = None, single_pattern_source = None, strict = False,
           fold_last_line = True, fold_end_pattern = False, comment_rule = True\<rparr> []"

definition indentation_rule :: Rule where
  "indentation_rule =
     Rule \<lparr>rule_id = 3, rule_kind = indentation, begin_pattern = None,
           end_pattern = None, single_pattern_source = None, strict = False,
           fold_last_line = True, fold_end_pattern = False, comment_rule = False\<rparr> []"




definition example_text :: "string list" where
  "example_text =
     [''// a'', ''// b'', ''f {'', ''  x'', ''  y'', ''}'', ''// c'', ''g { }'']"





section \<open>Properties of the extension\<close>

subsection \<open>Normalising and merging the rules\<close>


text \<open>
  C6.  \<open>applyRules\<close> takes one rule object or an array of them and appends to the array
  of rules: the elements of an array in their order, a single truthy value as one
  element, nothing for a missing or falsy value.
\<close>

theorem applyRules_normalizes:
  "applyRules (JArr xs) rules = rules @ xs
   \<and> (\<not> isArray d \<and> truthy d \<longrightarrow> applyRules d rules = rules @ [d])
   \<and> (\<not> truthy d \<longrightarrow> applyRules d rules = rules)"
  by (cases d) auto

theorem applyRules_normalizes_witness:
  "applyRules (JArr [JObj [(''begin'', JStr ''{'')], JObj [(''begin'', JStr ''['')]]) [JNull]
     = [JNull, JObj [(''begin'', JStr ''{'')], JObj [(''begin'', JStr ''['')]]
   \<and> \<not> isArray (JObj [(''begin'', JStr ''{'')]) \<and> truthy (JObj [(''begin'', JStr ''{'')])
   \<and> applyRules (JObj [(''begin'', JStr ''{'')]) [JNull] = [JNull, JObj [(''begin'', JStr ''{'')]]
   \<and> \<not> truthy JUndefined \<and> applyRules JUndefined [JNull] = [JNull]"
  using applyRules_normalizes [of "[JObj [(''begin'', JStr ''{'')], JObj [(''begin'', JStr ''['')]]"
          "[JNull]" "JObj [(''begin'', JStr ''{'')]"]
        applyRules_normalizes [of "[]" "[JNull]" JUndefined]
  by simp


subsection \<open>What the functions leave unchanged\<close>










subsection \<open>The rule set of a language\<close>




subsection \<open>The deprecation of \<open>descendants\<close>\<close>

lemma array_index_fields [simp]:
  "array_index ''descendants'' = None" "array_index ''nested'' = None"
  by (simp_all add: array_index_def is_digit_def)






subsection \<open>The provider of all languages\<close>










subsection \<open>The delay and the deprecated section\<close>

text \<open>
  C9.  \<open>getDelay\<close> returns the setting \<open>startupDelay\<close> when the configuration has that
  key, and then shows the deprecation warning; otherwise it returns the setting
  \<open>delay\<close> and shows nothing.  In both branches a missing or falsy value gives 0.
\<close>

theorem getDelay_value:
  "fst (getDelay config st) =
     (if config_has config ''startupDelay''
      then (if truthy (config_get config ''startupDelay'')
            then config_get config ''startupDelay'' else JNum 0)
      else (if truthy (config_get config ''delay'')
            then config_get config ''delay'' else JNum 0))
   \<and> messages (snd (getDelay config st)) =
       messages st @ (if config_has config ''startupDelay''
                      then [WarningMessage startupDelay_warning] else [])"
  by (simp add: getDelay_def js_or_def showWarningMessage_def)

theorem getDelay_value_witness:
  "config_has [(''startupDelay'', JNum 0), (''delay'', JNum 500)] ''startupDelay''
   \<and> fst (getDelay [(''startupDelay'', JNum 0), (''delay'', JNum 500)] example_state) = JNum 0
   \<and> \<not> config_has [(''delay'', JNum 500)] ''startupDelay''
   \<and> fst (getDelay [(''delay'', JNum 500)] example_state) = JNum 500
   \<and> fst (getDelay [] example_state) = JNum 0"
  using getDelay_value [of "[(''startupDelay'', JNum 0), (''delay'', JNum 500)]" example_state]
        getDelay_value [of "[(''delay'', JNum 500)]" example_state]
        getDelay_value [of "[]" example_state]
  by (simp add: config_has_def config_get_def)

text \<open>
  C10.  \<open>getRules\<close> returns the deprecated section \<open>folding\<close> only when the section has
  more than 4 keys and the current date is not after July 1, 2022 (the date
  \<open>new Date(2022, 6, 1)\<close>); in every other case it returns the section
  \<open>explicitFolding.rules\<close>, after the error message when the section \<open>folding\<close> has more
  than 4 keys and the date is after July 1, 2022.
\<close>

theorem getRules_section:
  "fst (getRules env st) =
     (if length (Object_keys (getConfiguration_folding env)) > 4
         \<and> \<not> getTime (new_Date_now env) > getTime (new_Date env 2022 6 1)
      then getConfiguration_folding env
      else getConfiguration_explicitFolding_rules env)
   \<and> (length (Object_keys (getConfiguration_folding env)) > 4
        \<and> getTime (new_Date_now env) > getTime (new_Date env 2022 6 1)
       \<longrightarrow> messages (snd (getRules env st)) = messages st @ [ErrorMessage folding_error])"
  by (simp add: getRules_def Let_def showErrorMessage_def)

theorem getRules_section_witness:
  "length (Object_keys (getConfiguration_folding legacy_env)) > 4
   \<and> getTime (new_Date_now legacy_env) > getTime (new_Date legacy_env 2022 6 1)
   \<and> fst (getRules legacy_env example_state) = getConfiguration_explicitFolding_rules legacy_env
   \<and> messages (snd (getRules legacy_env example_state)) = [ErrorMessage folding_error]
   \<and> \<not> getTime (new_Date_now legacy_env_before) > getTime (new_Date legacy_env_before 2022 6 1)
   \<and> fst (getRules legacy_env_before example_state)
       = [(''javascript'', JObj [(''begin'', JStr ''/*''), (''end'', JStr ''*/'')])]
   \<and> \<not> length (Object_keys (getConfiguration_folding example_env)) > 4
   \<and> fst (getRules example_env example_state) = getConfiguration_explicitFolding_rules example_env"
  using getRules_section [of legacy_env example_state]
        getRules_section [of legacy_env_before example_state]
        getRules_section [of example_env example_state]
  by (simp add: example_defs Object_keys_def config_methods_def)


section \<open>Properties of the engine\<close>

subsection \<open>The lines of the events\<close>

lemma bounded_mono: "bounded n st \<Longrightarrow> n \<le> m \<Longrightarrow> bounded m st"
  by (fastforce simp: bounded_def)

lemma bounded_emit: "bounded n st \<Longrightarrow> a \<le> b \<Longrightarrow> b < n \<Longrightarrow> bounded n (emit r a b st)"
  by (auto simp: bounded_def emit_def)

lemma bounded_push: "bounded n st \<Longrightarrow> entry_line e < n \<Longrightarrow> bounded n (push e st)"
  by (auto simp: bounded_def push_def)

lemma bounded_stack: "bounded n st \<Longrightarrow> set es \<subseteq> set (stack st) \<Longrightarrow> bounded n (st\<lparr>stack := es\<rparr>)"
  by (auto simp: bounded_def)

lemma bounded_begin_step:
  "bounded (Suc i) (snd cst) \<Longrightarrow> bounded (Suc i) (snd (begin_step rx i line r parent cst))"
  by (cases cst)
     (auto simp: begin_step_def Let_def intro!: bounded_push bounded_emit split: option.splits)

lemma find_closed_sub:
  "find_closed rx r line stk = Some (e, es) \<Longrightarrow> e \<in> set stk \<and> set es \<subseteq> set stk"
  by (induction stk arbitrary: e es) (auto split: if_splits option.splits)

lemma bounded_end_step: "bounded (Suc i) st \<Longrightarrow> bounded (Suc i) (end_step rx i line r st)"
proof (cases "find_closed rx r line (stack st)")
  case None
  then show "bounded (Suc i) st \<Longrightarrow> ?thesis" by (simp add: end_step_def)
next
  case (Some a)
  obtain e es where a: "a = (e, es)" by (cases a)
  assume b: "bounded (Suc i) st"
  from Some a have sub: "e \<in> set (stack st)" "set es \<subseteq> set (stack st)"
    using find_closed_sub by blast+
  then have "entry_line e \<le> i" using b by (auto simp: bounded_def)
  then show ?thesis
    using Some a b sub by (auto simp: end_step_def intro!: bounded_emit bounded_stack)
qed

lemma bounded_foldl_emit:
  "bounded (Suc i) st \<Longrightarrow> \<forall>e \<in> set es. entry_line e < i
   \<Longrightarrow> bounded (Suc i) (foldl (\<lambda>s e. emit (entry_rule e) (entry_line e) (i - 1) s) st es)"
proof (induction es arbitrary: st)
  case Nil
  then show ?case by simp
next
  case (Cons e es)
  then have "bounded (Suc i) (emit (entry_rule e) (entry_line e) (i - 1) st)"
    by (intro bounded_emit) auto
  with Cons show ?case by simp
qed

lemma bounded_off_side_step:
  "bounded (Suc i) st \<Longrightarrow> bounded (Suc i) (off_side_step i line r parent st)"
  unfolding off_side_step_def Let_def
  by (intro bounded_push bounded_foldl_emit bounded_stack) (auto simp: implicit_closed_def)

lemma run_of_member: "run_of r rs = Some run \<Longrightarrow> \<exists>q. (q, run) \<in> set rs"
  unfolding run_of_def by (induction rs) (auto split: if_splits)

lemma bounded_runs:
  "bounded n st \<Longrightarrow> \<forall>(r, a, b, k) \<in> set rs. a \<le> b \<and> b < n \<Longrightarrow> bounded n (st\<lparr>runs := rs\<rparr>)"
  by (auto simp: bounded_def)

lemma bounded_close_run:
  "bounded n st \<Longrightarrow> a \<le> b \<Longrightarrow> b < n \<Longrightarrow> bounded n (close_run (r, a, b, k) st)"
  by (auto simp: close_run_def intro: bounded_emit)

lemma bounded_consecutive_step:
  assumes "bounded (Suc i) st"
  shows "bounded (Suc i) (consecutive_step rx i line r st)"
proof -
  have w: "\<forall>(q, a, b, k) \<in> set (without_run r (runs st)). a \<le> b \<and> b < Suc i"
    using assms by (auto simp: bounded_def without_run_def)
  have run: "a \<le> b \<and> b < Suc i" if "run_of r (runs st) = Some (a, b, k)" for a b k
    using run_of_member [OF that] assms by (auto simp: bounded_def)
  show ?thesis
    using assms w run
    by (auto simp: consecutive_step_def split: option.splits
          intro!: bounded_runs bounded_close_run) (auto simp: bounded_def)
qed

lemma bounded_rule_step:
  "bounded (Suc i) (snd cst) \<Longrightarrow> bounded (Suc i) (snd (rule_step rx i line cst rp))"
  using bounded_begin_step [of i cst rx line "fst rp" "snd rp"]
  by (auto simp: rule_step_def split: prod.splits rule_kind.splits
        intro: bounded_off_side_step bounded_consecutive_step bounded_end_step)

lemma bounded_try_rules:
  "try_rules rx i line rps cst = Inr cst' \<Longrightarrow> bounded (Suc i) (snd cst)
   \<Longrightarrow> bounded (Suc i) (snd cst')"
proof (induction rps arbitrary: cst)
  case Nil
  then show ?case by simp
next
  case (Cons rp rps)
  from Cons.prems(1) have "try_rules rx i line rps (rule_step rx i line cst rp) = Inr cst'"
    by (auto simp: try_rule_def split: sum.splits)
  from Cons.IH [OF this bounded_rule_step [OF Cons.prems(2)]] show ?case .
qed

lemma bounded_foldl_close_run:
  "bounded n st \<Longrightarrow> \<forall>(r, a, b, k) \<in> set rs. a \<le> b \<and> b < n
   \<Longrightarrow> bounded n (foldl (\<lambda>s rr. close_run rr s) st rs)"
  by (induction rs arbitrary: st) (auto intro!: bounded_close_run)

lemma bounded_close_stale_runs: "bounded n st \<Longrightarrow> bounded n (close_stale_runs i st)"
  unfolding close_stale_runs_def
  by (intro bounded_foldl_close_run bounded_runs) (auto simp: bounded_def)

lemma bounded_process_line:
  assumes "process_line rx rules i line st = Inr st'" and "bounded i st"
  shows "bounded (Suc i) st'"
proof -
  from assms(1) obtain cst where
    t: "try_rules rx i line (active_rules rules (stack st)) (0, st) = Inr cst"
    and st': "st' = close_stale_runs i (snd cst)"
    by (auto simp: process_line_def split: sum.splits)
  have "bounded (Suc i) (snd (0 :: nat, st))"
    using assms(2) by (simp add: bounded_mono)
  from bounded_try_rules [OF t this] show ?thesis
    unfolding st' by (rule bounded_close_stale_runs)
qed

lemma bounded_scan_lines:
  "scan_lines rx rules i lines st = Inr st' \<Longrightarrow> bounded i st
   \<Longrightarrow> bounded (i + length lines) st'"
proof (induction lines arbitrary: i st)
  case Nil
  then show ?case by simp
next
  case (Cons line lines)
  from Cons.prems(1) obtain st1 where p: "process_line rx rules i line st = Inr st1"
    and s: "scan_lines rx rules (Suc i) lines st1 = Inr st'"
    by (auto split: sum.splits)
  from Cons.IH [OF s bounded_process_line [OF p Cons.prems(2)]]
  show ?case by simp
qed

lemma bounded_end_of_document: "bounded n st \<Longrightarrow> bounded n (end_of_document st)"
  unfolding end_of_document_def
  by (intro bounded_stack bounded_foldl_close_run bounded_runs) (auto simp: bounded_def)

lemma matching_engine_events:
  assumes "matching_engine rx rules lines = Inr evs" and "ev \<in> set evs"
  shows "open_line ev \<le> close_line ev \<and> close_line ev < length lines"
proof -
  from assms(1) obtain st where
    s: "scan_lines rx rules 0 lines \<lparr>stack = [], runs = [], events = []\<rparr> = Inr st"
    and evs: "evs = events (end_of_document st)"
    by (auto simp: matching_engine_def split: sum.splits)
  have "bounded 0 \<lparr>stack = [], runs = [], events = []\<rparr>"
    by (simp add: bounded_def)
  from bounded_end_of_document [OF bounded_scan_lines [OF s this]] assms(2)
  show ?thesis by (auto simp: evs bounded_def)
qed

lemma assemble_range_balanced:
  assumes "assemble_range last_line ev = Some \<rho>"
    and "open_line ev \<le> close_line ev" and "int (close_line ev) \<le> last_line"
  shows "start_line \<rho> < end_line \<rho> \<and> end_line \<rho> \<le> last_line"
  using assms by (auto simp: assemble_range_def Let_def split: if_splits)

lemma set_deduplicate: "set (deduplicate xs) \<subseteq> set xs"
  by (induction xs rule: deduplicate.induct) auto

lemma range_assembler_member:
  assumes "\<rho> \<in> set (range_assembler last_line evs)"
  shows "\<exists>ev \<in> set evs. assemble_range last_line ev = Some \<rho>"
proof -
  from assms have "\<rho> \<in> set (deduplicate (List.map_filter (assemble_range last_line) evs))"
    by (simp add: range_assembler_def)
  then have "\<rho> \<in> set (List.map_filter (assemble_range last_line) evs)"
    using set_deduplicate by blast
  then show ?thesis
    by (auto simp: List.map_filter_def)
qed

subsection \<open>The scan of usable rules\<close>

lemma every_rule_attributes: "every_rule P r \<Longrightarrow> P (attributes r)"
  by (cases r) simp

lemma every_rule_nested: "every_rule P r \<Longrightarrow> n \<in> set (nested_rules r) \<Longrightarrow> every_rule P n"
  by (cases r) simp

lemma usable_every_rule:
  "every_rule Q q \<Longrightarrow> fst (usable_rule rx q) = Some q'
   \<Longrightarrow> every_rule (\<lambda>a. compile_patterns rx a = Inr () \<and> Q a) q'"
  "\<forall>q \<in> set qs. every_rule Q q
   \<Longrightarrow> \<forall>q' \<in> set (fst (usable_rules rx qs)).
         every_rule (\<lambda>a. compile_patterns rx a = Inr () \<and> Q a) q'"
proof (induction rx q and rx qs arbitrary: q' rule: usable_rule_usable_rules.induct)
  case (1 rx a ns)
  then show ?case
    by (auto simp: split_beta split: sum.splits)
next
  case (2 rx)
  show ?case by simp
next
  case (3 rx r rs)
  have rest: "\<forall>q' \<in> set (fst (usable_rules rx rs)).
                every_rule (\<lambda>a. compile_patterns rx a = Inr () \<and> Q a) q'"
    using "3.IH"(2) [OF prod.collapse] "3.prems" by simp
  have head: "every_rule (\<lambda>a. compile_patterns rx a = Inr () \<and> Q a) u"
    if "fst (usable_rule rx r) = Some u" for u
    using "3.IH"(1) [OF _ that] "3.prems" by simp
  show ?case
    using rest head by (auto simp: split_beta split: option.splits)
qed

lemma enclosing_rules_chain:
  "every_entry (every_rule P) e \<Longrightarrow>
     \<exists>inner. enclosing_rules toplevel e = inner @ map (\<lambda>q. (q, None)) toplevel
       \<and> (\<forall>(q, parent) \<in> set inner.
            every_rule P q \<and> (\<exists>p. parent = Some p \<and> every_entry (every_rule P) p))"
proof (induction toplevel e rule: enclosing_rules.induct)
  case (1 toplevel r l c g parent)
  let ?e = "Open_Entry r l c g parent"
  let ?own = "map (\<lambda>q. (q, Some ?e)) (nested_rules r)"
  have own: "\<forall>(q, parent) \<in> set ?own.
               every_rule P q \<and> (\<exists>p. parent = Some p \<and> every_entry (every_rule P) p)"
    using "1.prems" by (auto intro: every_rule_nested)
  show ?case
  proof (cases parent)
    case None
    then have "enclosing_rules toplevel ?e = ?own @ map (\<lambda>q. (q, None)) toplevel"
      by simp
    with own show ?thesis by blast
  next
    case (Some p)
    with "1.prems" have "every_entry (every_rule P) p" by simp
    from "1.IH" [OF Some this] obtain inner where
      i: "enclosing_rules toplevel p = inner @ map (\<lambda>q. (q, None)) toplevel"
      and g: "\<forall>(q, parent) \<in> set inner.
                every_rule P q \<and> (\<exists>p. parent = Some p \<and> every_entry (every_rule P) p)"
      by blast
    have "enclosing_rules toplevel ?e = (?own @ inner) @ map (\<lambda>q. (q, None)) toplevel"
      using Some i by simp
    moreover have "\<forall>(q, parent) \<in> set (?own @ inner).
                every_rule P q \<and> (\<exists>p. parent = Some p \<and> every_entry (every_rule P) p)"
      using own g by auto
    ultimately show ?thesis by blast
  qed
qed

lemma active_rules_chain:
  assumes "\<forall>e \<in> set stk. every_entry (every_rule P) e"
  shows "\<exists>inner. active_rules toplevel stk = inner @ map (\<lambda>q. (q, None)) toplevel
       \<and> (\<forall>(q, parent) \<in> set inner.
            every_rule P q \<and> (\<exists>p. parent = Some p \<and> every_entry (every_rule P) p))"
proof (cases stk)
  case Nil
  then have "active_rules toplevel stk = [] @ map (\<lambda>q. (q, None)) toplevel"
    by (simp add: active_rules_def)
  then show ?thesis by force
next
  case (Cons e es)
  with assms have "every_entry (every_rule P) e" by simp
  from enclosing_rules_chain [OF this, of toplevel] Cons show ?thesis
    by (simp add: active_rules_def)
qed


lemma stack_emit [simp]: "stack (emit r a b st) = stack st"
  by (simp add: emit_def)

lemma stack_foldl_emit [simp]:
  "stack (foldl (\<lambda>s e. emit (f e) (g e) c s) st es) = stack st"
  by (induction es arbitrary: st) simp_all

lemma close_runs:
  "foldl (\<lambda>s rr. close_run rr s) st rs = st\<lparr>events := events st @ run_events rs\<rparr>"
  by (induction rs arbitrary: st) (auto simp: close_run_def emit_def run_events_def)

lemma stack_close_stale_runs [simp]: "stack (close_stale_runs i st) = stack st"
  by (simp add: close_stale_runs_def close_runs)

lemma stack_consecutive_step [simp]: "stack (consecutive_step rx i line r st) = stack st"
  by (simp add: consecutive_step_def close_run_def split: option.splits prod.splits)

lemma entries_begin_step:
  assumes "\<forall>e \<in> set (stack (snd cst)). every_entry G e" and "G r"
    and "case parent of None \<Rightarrow> True | Some p \<Rightarrow> every_entry G p"
  shows "\<forall>e \<in> set (stack (snd (begin_step rx i line r parent cst))). every_entry G e"
  using assms
  by (cases cst) (auto simp: begin_step_def Let_def push_def split: option.splits)

lemma entries_end_step:
  assumes "\<forall>e \<in> set (stack st). every_entry G e"
  shows "\<forall>e \<in> set (stack (end_step rx i line r st)). every_entry G e"
proof (cases "find_closed rx r line (stack st)")
  case None
  with assms show ?thesis by (simp add: end_step_def)
next
  case (Some a)
  obtain e es where a: "a = (e, es)" by (cases a)
  from Some a have "set es \<subseteq> set (stack st)"
    using find_closed_sub by blast
  with assms Some a show ?thesis by (auto simp: end_step_def)
qed

lemma entries_off_side_step:
  assumes "\<forall>e \<in> set (stack st). every_entry G e" and "G r"
    and "case parent of None \<Rightarrow> True | Some p \<Rightarrow> every_entry G p"
  shows "\<forall>e \<in> set (stack (off_side_step i line r parent st)). every_entry G e"
  using assms by (auto simp: off_side_step_def Let_def push_def)

lemma entries_rule_step:
  assumes "\<forall>e \<in> set (stack (snd cst)). every_entry G e"
    and "rule_kind (attributes r) \<noteq> consecutive \<longrightarrow> G r"
    and "case parent of None \<Rightarrow> True | Some p \<Rightarrow> every_entry G p"
  shows "\<forall>e \<in> set (stack (snd (rule_step rx i line cst (r, parent)))). every_entry G e"
proof (cases "rule_kind (attributes r)")
  case consecutive
  with assms(1) show ?thesis by (simp add: rule_step_def)
next
  case indentation
  with assms entries_off_side_step [of "snd cst" G r parent i line] show ?thesis
    by (simp add: rule_step_def)
next
  case begin_end
  with assms have "\<forall>e \<in> set (stack (snd (begin_step rx i line r parent cst))). every_entry G e"
    by (intro entries_begin_step) simp_all
  from entries_end_step [OF this] begin_end show ?thesis
    by (simp add: rule_step_def split_beta)
next
  case single_pattern
  with assms have "\<forall>e \<in> set (stack (snd (begin_step rx i line r parent cst))). every_entry G e"
    by (intro entries_begin_step) simp_all
  from entries_end_step [OF this] single_pattern show ?thesis
    by (simp add: rule_step_def split_beta)
qed

lemma entries_foldl_rule_step:
  assumes "\<forall>e \<in> set (stack (snd cst)). every_entry G e"
    and "\<forall>(r, parent) \<in> set rps.
           (rule_kind (attributes r) \<noteq> consecutive \<longrightarrow> G r)
           \<and> (case parent of None \<Rightarrow> True | Some p \<Rightarrow> every_entry G p)"
  shows "\<forall>e \<in> set (stack (snd (foldl (rule_step rx i line) cst rps))). every_entry G e"
  using assms
proof (induction rps arbitrary: cst)
  case Nil
  then show ?case by simp
next
  case (Cons rp rps)
  obtain r parent where rp: "rp = (r, parent)" by (cases rp)
  have "\<forall>e \<in> set (stack (snd (rule_step rx i line cst (r, parent)))). every_entry G e"
    using Cons.prems rp by (intro entries_rule_step) auto
  from Cons.IH [OF this] Cons.prems(2) rp show ?case by simp
qed

lemma try_rules_returns:
  "\<forall>rp \<in> set rps. compile_patterns rx (attributes (fst rp)) = Inr ()
   \<Longrightarrow> try_rules rx i line rps cst = Inr (foldl (rule_step rx i line) cst rps)"
  by (induction rps arbitrary: cst) (simp_all add: try_rule_def)

text \<open>
  A line of the scan when every rule that can be tried compiles: the top-level rules,
  and with the entries of the stack the rules nested in their rules.  The property \<open>P\<close>
  holds of the rules that open entries.
\<close>

lemma process_line_returns:
  assumes inv: "\<forall>e \<in> set (stack st). every_entry (every_rule P) e"
    and PC: "\<And>a. P a \<Longrightarrow> compile_patterns rx a = Inr ()"
    and T: "\<forall>q \<in> set toplevel. compile_patterns rx (attributes q) = Inr ()
              \<and> (rule_kind (attributes q) \<noteq> consecutive \<longrightarrow> every_rule P q)"
  shows "process_line rx toplevel i line st
           = Inr (close_stale_runs i
                (snd (foldl (rule_step rx i line) (0, st) (active_rules toplevel (stack st)))))"
    and "\<forall>e \<in> set (stack (close_stale_runs i
                (snd (foldl (rule_step rx i line) (0, st) (active_rules toplevel (stack st)))))).
           every_entry (every_rule P) e"
proof -
  from active_rules_chain [OF inv, of toplevel] obtain inner where
    a: "active_rules toplevel (stack st) = inner @ map (\<lambda>q. (q, None)) toplevel"
    and g: "\<forall>(q, parent) \<in> set inner.
              every_rule P q \<and> (\<exists>p. parent = Some p \<and> every_entry (every_rule P) p)"
    by blast
  have c: "\<forall>rp \<in> set (active_rules toplevel (stack st)).
             compile_patterns rx (attributes (fst rp)) = Inr ()"
    unfolding a using g T by (auto dest!: every_rule_attributes PC)
  from try_rules_returns [OF c]
  show "process_line rx toplevel i line st
           = Inr (close_stale_runs i
                (snd (foldl (rule_step rx i line) (0, st) (active_rules toplevel (stack st)))))"
    by (simp add: process_line_def)
  have "\<forall>(r, parent) \<in> set (active_rules toplevel (stack st)).
           (rule_kind (attributes r) \<noteq> consecutive \<longrightarrow> every_rule P r)
           \<and> (case parent of None \<Rightarrow> True | Some p \<Rightarrow> every_entry (every_rule P) p)"
    unfolding a using g T by auto
  from entries_foldl_rule_step [of "(0, st)" "every_rule P", OF _ this] inv
  show "\<forall>e \<in> set (stack (close_stale_runs i
                (snd (foldl (rule_step rx i line) (0, st) (active_rules toplevel (stack st)))))).
           every_entry (every_rule P) e"
    by simp
qed

lemma scan_lines_returns:
  assumes PC: "\<And>a. P a \<Longrightarrow> compile_patterns rx a = Inr ()"
    and T: "\<forall>q \<in> set toplevel. compile_patterns rx (attributes q) = Inr ()
              \<and> (rule_kind (attributes q) \<noteq> consecutive \<longrightarrow> every_rule P q)"
  shows "\<forall>e \<in> set (stack st). every_entry (every_rule P) e
         \<Longrightarrow> \<exists>st'. scan_lines rx toplevel i lines st = Inr st'"
proof (induction lines arbitrary: i st)
  case Nil
  show ?case by simp
next
  case (Cons line lines)
  note p = process_line_returns [of st P rx toplevel i line, OF Cons.prems PC T]
  from Cons.IH [OF p(2)] p(1) show ?case by simp
qed

lemma matching_engine_returns:
  assumes "\<forall>q \<in> set rules. every_rule (\<lambda>a. compile_patterns rx a = Inr ()) q"
  shows "\<exists>evs. matching_engine rx rules lines = Inr evs"
proof -
  have T: "\<forall>q \<in> set rules. compile_patterns rx (attributes q) = Inr ()
              \<and> (rule_kind (attributes q) \<noteq> consecutive
                   \<longrightarrow> every_rule (\<lambda>a. compile_patterns rx a = Inr ()) q)"
    using assms by (auto dest: every_rule_attributes)
  have "\<exists>st'. scan_lines rx rules 0 lines \<lparr>stack = [], runs = [], events = []\<rparr> = Inr st'"
    by (rule scan_lines_returns [of "\<lambda>a. compile_patterns rx a = Inr ()", OF _ T]) simp_all
  then show ?thesis
    by (auto simp: matching_engine_def)
qed

lemma usable_rules_compile:
  "\<forall>q \<in> set (fst (usable_rules rx rules)). every_rule (\<lambda>a. compile_patterns rx a = Inr ()) q"
proof -
  have "\<forall>q \<in> set rules. every_rule (\<lambda>a. True) q"
  proof
    fix q :: Rule
    show "every_rule (\<lambda>a. True) q"
      by (induction q) simp
  qed
  from usable_every_rule(2) [OF this, of rx] show ?thesis by simp
qed

lemma engine_events_returns: "\<exists>evs. engine_events rx rules lines = Inr evs"
  unfolding engine_events_def by (rule matching_engine_returns [OF usable_rules_compile])

lemma engine_returns:
  "\<exists>evs. engine_events rx rules lines = Inr evs
     \<and> fst (engine rx rules lines sink) = Inr (range_assembler (int (length lines) - 1) evs)"
  using engine_events_returns [of rx rules lines] by (auto simp: engine_def)

text \<open>
  C2.  For every document and every rule set, the engine returns, and every folding
  range it returns has \<open>start_line < end_line\<close>, and its \<open>end_line\<close> is at most the
  index of the last line of the document.
\<close>

theorem engine_balance:
  "\<exists>ranges. fst (engine rx rules lines sink) = Inr ranges
     \<and> (\<forall>\<rho> \<in> set ranges.
          start_line \<rho> < end_line \<rho> \<and> end_line \<rho> \<le> int (length lines) - 1)"
proof -
  from engine_returns [of rx rules lines sink] obtain evs where
    evs: "engine_events rx rules lines = Inr evs"
    and out: "fst (engine rx rules lines sink)
                = Inr (range_assembler (int (length lines) - 1) evs)"
    by blast
  have "start_line \<rho> < end_line \<rho> \<and> end_line \<rho> \<le> int (length lines) - 1"
    if "\<rho> \<in> set (range_assembler (int (length lines) - 1) evs)" for \<rho>
  proof -
    from that obtain ev where ev: "ev \<in> set evs"
      and \<rho>: "assemble_range (int (length lines) - 1) ev = Some \<rho>"
      using range_assembler_member by blast
    from matching_engine_events [OF evs [unfolded engine_events_def] ev]
    have "open_line ev \<le> close_line ev" "int (close_line ev) \<le> int (length lines) - 1"
      by auto
    with \<rho> show ?thesis by (rule assemble_range_balanced)
  qed
  with out show ?thesis by blast
qed

theorem engine_balance_witness:
  "fst (engine literal_library [braces_rule, line_comment_rule, indentation_rule]
          example_text [])
     = Inr [\<lparr>start_line = 0, end_line = 1, kind = comment\<rparr>,
            \<lparr>start_line = 2, end_line = 5, kind = region\<rparr>,
            \<lparr>start_line = 2, end_line = 4, kind = region\<rparr>]
   \<and> start_line \<lparr>start_line = 2, end_line = 5, kind = region\<rparr>
       < end_line \<lparr>start_line = 2, end_line = 5, kind = region\<rparr>
   \<and> end_line \<lparr>start_line = 2, end_line = 5, kind = region\<rparr> \<le> int (length example_text) - 1"
proof -
  have e: "fst (engine literal_library [braces_rule, line_comment_rule, indentation_rule]
          example_text [])
     = Inr [\<lparr>start_line = 0, end_line = 1, kind = comment\<rparr>,
            \<lparr>start_line = 2, end_line = 5, kind = region\<rparr>,
            \<lparr>start_line = 2, end_line = 4, kind = region\<rparr>]"
    by code_simp
  from engine_balance [of literal_library "[braces_rule, line_comment_rule, indentation_rule]"
         example_text "[]"] e
  show ?thesis by auto
qed

subsection \<open>Malformed rules\<close>









subsection \<open>The run and the events of one rule\<close>


lemma view_push [simp]: "rule_view k (push e st) = rule_view k st"
  by (simp add: rule_view_def push_def)

lemma view_stack [simp]: "rule_view k (st\<lparr>stack := es\<rparr>) = rule_view k st"
  by (simp add: rule_view_def)

lemma stack_view [simp]: "stack (rule_view k st) = []"
  by (simp add: rule_view_def)

























subsection \<open>Consecutive rules\<close>
























end
